theory Spec2Isabelle
  imports Main "HOL-Library.Multiset"
begin

section \<open>Data model of the notes store\<close>

text \<open>
  A note as the store holds it (\<open>src/app/src/store.js\<close>, the initial state): the fields
  \<open>id\<close>, \<open>provider\<close>, \<open>domain\<close>, \<open>type\<close>, \<open>subdomain\<close>, \<open>value\<close>, \<open>note\<close> and
  \<open>time\<close>. Field names that are Isabelle keywords or HOL constants carry a prefix.
  \<open>time\<close> is a number of seconds.
\<close>

record Note =
  note_id :: string
  provider :: string
  domain :: string
  record_type :: string
  subdomain :: string
  record_value :: string
  note_text :: string
  time :: int

text \<open>
  A plain JavaScript object with string keys: its own enumerable properties, in the order
  they were created. \<open>state.notes\<close> is such an object, keyed by note id. Its prototype
  is \<open>Object.prototype\<close> or, after an assignment to \<open>__proto__\<close>, a note; the mutations,
  the spread and \<open>Object.values\<close> read own properties only, so the prototype is not
  part of the model.
\<close>

type_synonym 'v object = "(string \<times> 'v) list"

text \<open>
  Defining the data property \<open>k\<close> with value \<open>v\<close> (\<open>CreateDataProperty\<close>, which object
  spread uses for every key): an existing property keeps its place and takes the new
  value, a new property is created after the existing ones.
\<close>

fun obj_define :: "string \<Rightarrow> 'v \<Rightarrow> 'v object \<Rightarrow> 'v object" where
  "obj_define k v [] = [(k, v)]"
| "obj_define k v (p # ps) = (if fst p = k then (k, v) # ps else p # obj_define k v ps)"

text \<open>
  The assignment \<open>o[k] = v\<close> of an object \<open>v\<close>. It defines the data property \<open>k\<close>,
  with one exception: when \<open>k\<close> is \<open>"__proto__"\<close> and \<open>o\<close> has no own property of that
  name, the assignment finds the accessor \<open>__proto__\<close> of \<open>Object.prototype\<close> and runs
  its setter, which makes \<open>v\<close> the prototype of \<open>o\<close> and creates no property.
\<close>

definition obj_assign :: "string \<Rightarrow> 'v \<Rightarrow> 'v object \<Rightarrow> 'v object" where
  "obj_assign k v ps =
     (if k = ''__proto__'' \<and> map_of ps k = None then ps else obj_define k v ps)"

text \<open>\<open>delete o[k]\<close>: removes the property; on an object without it nothing happens.\<close>

definition obj_delete :: "string \<Rightarrow> 'v object \<Rightarrow> 'v object" where
  "obj_delete k ps = filter (\<lambda>p. fst p \<noteq> k) ps"

subsection \<open>Property enumeration order\<close>

text \<open>
  Object spread and \<open>Object.values\<close> visit the own properties in the order of the
  object's \<open>OwnPropertyKeys\<close>: first the keys that are array indices (canonical decimal
  numerals below \<open>2^32 - 1 = 4294967295\<close>) in ascending numeric order, then the other
  string keys in creation order.
\<close>

definition is_digit :: "char \<Rightarrow> bool" where
  "is_digit c = (48 \<le> (of_char c :: nat) \<and> (of_char c :: nat) \<le> 57)"

definition dec_value :: "string \<Rightarrow> nat" where
  "dec_value s = foldl (\<lambda>a c. 10 * a + (of_char c - 48)) 0 s"

definition array_index :: "string \<Rightarrow> nat option" where
  "array_index s =
     (if s \<noteq> [] \<and> list_all is_digit s \<and> (length s = 1 \<or> hd s \<noteq> CHR ''0'')
         \<and> dec_value s < 4294967295
      then Some (dec_value s) else None)"

definition own_entries :: "'v object \<Rightarrow> (string \<times> 'v) list" where
  "own_entries ps =
     sort_key (\<lambda>p. the (array_index (fst p))) (filter (\<lambda>p. array_index (fst p) \<noteq> None) ps)
     @ filter (\<lambda>p. array_index (fst p) = None) ps"

definition Object_values :: "'v object \<Rightarrow> 'v list" where
  "Object_values ps = map snd (own_entries ps)"

text \<open>
  \<open>{ ...a, ...b }\<close>: a fresh object that receives the properties of \<open>a\<close> and then
  those of \<open>b\<close>, each in enumeration order, by plain property assignment.
\<close>

definition copy_properties :: "(string \<times> 'v) list \<Rightarrow> 'v object \<Rightarrow> 'v object" where
  "copy_properties es target = fold (\<lambda>e acc. obj_define (fst e) (snd e) acc) es target"

subsection \<open>Arrays as spread sources\<close>

text \<open>The decimal numeral of a natural number, the property key of an array element.\<close>

fun show_nat :: "nat \<Rightarrow> string" where
  "show_nat n =
     (if n < 10 then [char_of (48 + n)] else show_nat (n div 10) @ [char_of (48 + n mod 10)])"

declare show_nat.simps [simp del]

text \<open>
  The \<open>notes\<close> field of a server response is JSON: either an array of notes or an
  object of notes. An array has a \<open>length\<close>; its enumerable properties are its elements
  under the keys \<open>"0"\<close>, \<open>"1"\<close>, ...
\<close>

datatype payload = NotesArray "Note list" | NotesObject "Note object"

fun payload_entries :: "payload \<Rightarrow> (string \<times> Note) list" where
  "payload_entries (NotesArray ns) = zip (map show_nat [0..<length ns]) ns"
| "payload_entries (NotesObject ps) = own_entries ps"

text \<open>
  \<open>res.notes.length === 0\<close>: true for the empty array only. On an object of notes
  \<open>length\<close> is either missing or a note, never the number 0.
\<close>

fun length_is_zero :: "payload \<Rightarrow> bool" where
  "length_is_zero (NotesArray ns) = (ns = [])"
| "length_is_zero (NotesObject ps) = False"

section \<open>The store: state and mutations\<close>

text \<open>
  The state of the store with persisted state in \<open>store.js\<close> (the plugin
  \<open>createPersistedState()\<close> writes the state to storage after every commit).
  \<open>loading\<close> and \<open>notes\<close> (here \<open>state_notes\<close>) are declared by \<open>state()\<close>.
  \<open>org\<close> is read by the bootstrap action and by the route guard, and \<open>lastSync\<close> is
  what the bootstrap action's \<open>setLastSync\<close> commit writes; a field that was never
  assigned is \<open>undefined\<close>, here \<open>None\<close>.
\<close>

record state =
  loading :: bool
  state_notes :: "Note object"
  org :: "string option"
  lastSync :: "int option"

text \<open>\<open>loading: (state, loadingState) => (state.loading = loadingState)\<close>\<close>

definition set_loading :: "state \<Rightarrow> bool \<Rightarrow> state" where
  "set_loading s loadingState = s\<lparr>loading := loadingState\<rparr>"

text \<open>\<open>addNewNote: (state, note) => (state.notes[note.id] = note)\<close>\<close>

definition addNewNote :: "state \<Rightarrow> Note \<Rightarrow> state" where
  "addNewNote s n = s\<lparr>state_notes := obj_assign (note_id n) n (state_notes s)\<rparr>"

text \<open>\<open>deleteNote: (state, noteID) => delete state.notes[noteID]\<close>\<close>

definition deleteNote :: "state \<Rightarrow> string \<Rightarrow> state" where
  "deleteNote s noteID = s\<lparr>state_notes := obj_delete noteID (state_notes s)\<rparr>"

text \<open>\<open>setNotes: (state, notes) => (state.notes = { ...state.notes, ...notes })\<close>\<close>

definition setNotes :: "state \<Rightarrow> payload \<Rightarrow> state" where
  "setNotes s p =
     s\<lparr>state_notes :=
         copy_properties (payload_entries p)
           (copy_properties (own_entries (state_notes s)) [])\<rparr>"

text \<open>
  Modelled from the spec: the \<open>setLastSync\<close> mutation, which \<open>loadAllNotes\<close> commits
  and whose source is not part of \<open>store.js\<close>. The specification's checkpoint is the
  single value \<open>lastSyncTime\<close>, advanced by storing the server's time marker.
\<close>

definition setLastSync :: "state \<Rightarrow> int \<Rightarrow> state" where
  "setLastSync s t = s\<lparr>lastSync := Some t\<rparr>"

text \<open>
  The mutations that the actions of \<open>store.js\<close> and the bootstrap action commit, as
  \<open>commit(type, payload)\<close>. (The generic \<open>setter\<close> mutation is committed by none of
  these actions and is left out.)
\<close>

datatype mutation =
    Loading bool
  | AddNewNote Note
  | DeleteNote string
  | SetNotes payload
  | SetLastSync int

fun commit :: "state \<Rightarrow> mutation \<Rightarrow> state" where
  "commit s (Loading b) = set_loading s b"
| "commit s (AddNewNote n) = addNewNote s n"
| "commit s (DeleteNote noteID) = deleteNote s noteID"
| "commit s (SetNotes p) = setNotes s p"
| "commit s (SetLastSync t) = setLastSync s t"

text \<open>
  The note collection that a state holds, as the mapping from id to note: the content of
  \<open>state.notes\<close> without the order of its properties.
\<close>

definition collection :: "state \<Rightarrow> (string \<rightharpoonup> Note)" where
  "collection s = map_of (state_notes s)"

subsection \<open>Events\<close>

text \<open>
  The two events that the store can apply, each by its mutation: \<open>Add\<close> by
  \<open>addNewNote\<close>, \<open>Delete\<close> by \<open>deleteNote\<close>. An ordered list of events is applied
  from left to right.
\<close>

datatype event = Add Note | Delete string

fun apply_event :: "state \<Rightarrow> event \<Rightarrow> state" where
  "apply_event s (Add n) = commit s (AddNewNote n)"
| "apply_event s (Delete noteID) = commit s (DeleteNote noteID)"

definition apply_events :: "state \<Rightarrow> event list \<Rightarrow> state" where
  "apply_events s es = foldl apply_event s es"

section \<open>The derived view\<close>

text \<open>
  \<open>Array.prototype.sort(comparefn)\<close>: a stable sort; \<open>a\<close> comes before \<open>b\<close> when
  \<open>comparefn(a, b) < 0\<close>, after it when \<open>comparefn(a, b) > 0\<close>, and elements that
  compare as 0 keep their order.
\<close>

fun sort_insert :: "('a \<Rightarrow> 'a \<Rightarrow> int) \<Rightarrow> 'a \<Rightarrow> 'a list \<Rightarrow> 'a list" where
  "sort_insert comparefn x [] = [x]"
| "sort_insert comparefn x (y # ys) =
     (if comparefn x y \<le> 0 then x # y # ys else y # sort_insert comparefn x ys)"

definition Array_sort :: "('a \<Rightarrow> 'a \<Rightarrow> int) \<Rightarrow> 'a list \<Rightarrow> 'a list" where
  "Array_sort comparefn xs = foldr (sort_insert comparefn) xs []"

text \<open>
  \<open>notes: (state) => Object.values(state.notes).sort((a, b) => b.time - a.time)\<close>
\<close>

definition notes_getter :: "state \<Rightarrow> Note list" where
  "notes_getter s = Array_sort (\<lambda>a b. time b - time a) (Object_values (state_notes s))"

section \<open>Actions\<close>

text \<open>
  An action is an \<open>async\<close> function: its promise either rejects with an error message
  (\<open>Inl\<close>) or resolves to a value (\<open>Inr\<close>). The values that the actions below resolve
  to are \<open>undefined\<close> and \<open>false\<close>.
\<close>

datatype js_value = JSUndefined | JSFalse

type_synonym outcome = "string + js_value"

text \<open>
  What \<open>await oof.GET(...).header(await getAuthHeader()).runJSON()\<close> gives:
  \<open>getAuthHeader()\<close> rejects, before any request is sent (\<open>NoHeader\<close>); or the request
  is sent and \<open>runJSON()\<close> rejects (\<open>Rejected\<close>); or it returns \<open>res\<close> with \<open>res.ok\<close>
  false and \<open>res.error\<close> (\<open>NotOk\<close>), or with \<open>res.ok\<close> true and the fields of the body
  (\<open>IsOk\<close>).
\<close>

datatype 'a response = NoHeader string | Rejected string | NotOk string | IsOk 'a

text \<open>The actions that can be dispatched on the store, with their argument.\<close>

datatype action =
    ActLoadDates "string option"
  | ActNewNote Note
  | ActDeleteNote string

text \<open>
  What an action does to the outside, in the order it does it: an HTTP request sent, a blocking
  \<open>confirm\<close> or \<open>alert\<close> dialog, a commit of a mutation, a dispatch of an action.
\<close>

datatype effect =
    Request string
  | Confirm string
  | Alert string
  | Commit mutation
  | Dispatch action

fun is_Commit :: "effect \<Rightarrow> bool" where
  "is_Commit (Commit m) = True"
| "is_Commit e = False"

text \<open>The state that a sequence of effects leaves: its commits, applied in order.\<close>

fun replay :: "state \<Rightarrow> effect list \<Rightarrow> state" where
  "replay s [] = s"
| "replay s (Commit m # fx) = replay (commit s m) fx"
| "replay s (e # fx) = replay s fx"

type_synonym run = "outcome \<times> state \<times> effect list"

text \<open>
  \<open>after ? `/appointment/available/date?after=${after}` : "/appointment/available/date"\<close>,
  for \<open>after\<close> a string or \<open>undefined\<close>; the empty string is falsy.
\<close>

definition dates_url :: "string option \<Rightarrow> string" where
  "dates_url after =
     (case after of
        None \<Rightarrow> ''/appointment/available/date''
      | Some a \<Rightarrow>
          if a \<noteq> [] then ''/appointment/available/date?after='' @ a
          else ''/appointment/available/date'')"

text \<open>\<open>`Error: \n${res.error}\n\nTry again?`\<close>\<close>

definition retry_prompt :: "string \<Rightarrow> string" where
  "retry_prompt e = ''Error: '' @ [CHR 0x0A] @ e @ [CHR 0x0A, CHR 0x0A] @ ''Try again?''"

text \<open>
  The action \<open>loadDates\<close>. Its environment is a script: for each invocation in turn, the
  response of the server and the answer the user gives if \<open>confirm\<close> asks. A failed
  response with the answer yes dispatches the action again, which is the next invocation;
  \<open>None\<close> means the script ended before the action settled.
\<close>

fun loadDates ::
  "(payload response \<times> bool) list \<Rightarrow> state \<Rightarrow> string option \<Rightarrow> run option" where
  "loadDates [] s after = None"
| "loadDates ((res, answer) # script) s after =
     (case res of
        NoHeader e \<Rightarrow> Some (Inl e, s, [])
      | Rejected e \<Rightarrow> Some (Inl e, s, [Request (dates_url after)])
      | NotOk e \<Rightarrow>
          if answer then
            (case loadDates script s after of
               None \<Rightarrow> None
             | Some (r, s', fx) \<Rightarrow>
                 Some (r, s',
                   [Request (dates_url after), Confirm (retry_prompt e),
                    Dispatch (ActLoadDates after)] @ fx))
          else Some (Inr JSFalse, s, [Request (dates_url after), Confirm (retry_prompt e)])
      | IsOk p \<Rightarrow>
          if length_is_zero p then
            Some (Inr JSUndefined, s, [Request (dates_url after), Alert ''All notes loaded!''])
          else
            Some (Inr JSUndefined, commit s (SetNotes p),
              [Request (dates_url after), Commit (SetNotes p)]))"

text \<open>
  The actions \<open>newNote\<close> and \<open>deleteNote\<close>. Each begins with an unconditional
  \<open>return commit(...)\<close>; the statements after it (the request, the retry prompt and the
  second commit) are never reached and have no part in what the action does. (Among
  them, the retry of \<open>newNote\<close> is written \<open>dispatch("newNote")\<close>, without the note.)
\<close>

definition newNote :: "state \<Rightarrow> Note \<Rightarrow> run" where
  "newNote s n = (Inr JSUndefined, commit s (AddNewNote n), [Commit (AddNewNote n)])"

definition deleteNote_action :: "state \<Rightarrow> string \<Rightarrow> run" where
  "deleteNote_action s noteID =
     (Inr JSUndefined, commit s (DeleteNote noteID), [Commit (DeleteNote noteID)])"

text \<open>\<open>dispatch(type, payload)\<close>: runs the action registered under the name.\<close>

fun dispatch :: "(payload response \<times> bool) list \<Rightarrow> state \<Rightarrow> action \<Rightarrow> run option" where
  "dispatch script s (ActLoadDates after) = loadDates script s after"
| "dispatch script s (ActNewNote n) = Some (newNote s n)"
| "dispatch script s (ActDeleteNote noteID) = Some (deleteNote_action s noteID)"

subsection \<open>Bootstrap\<close>

text \<open>
  The function \<open>loadAllNotes\<close> that the bootstrap module passes to
  \<open>errorHandlingWrapper\<close>: one request for \<open>/note/all/${state.org}\<close>, then either
  \<open>throw new Error(res.error)\<close> or the two commits. The response body carries \<open>notes\<close>
  and \<open>time\<close>.
\<close>

definition notes_url :: "state \<Rightarrow> string" where
  "notes_url s = ''/note/all/'' @ (case org s of None \<Rightarrow> ''undefined'' | Some g \<Rightarrow> g)"

definition loadAllNotes :: "(payload \<times> int) response \<Rightarrow> state \<Rightarrow> run" where
  "loadAllNotes res s =
     (case res of
        NoHeader e \<Rightarrow> (Inl e, s, [])
      | Rejected e \<Rightarrow> (Inl e, s, [Request (notes_url s)])
      | NotOk e \<Rightarrow> (Inl e, s, [Request (notes_url s)])
      | IsOk body \<Rightarrow>
          (Inr JSUndefined,
           commit (commit s (SetNotes (fst body))) (SetLastSync (snd body)),
           [Request (notes_url s), Commit (SetNotes (fst body)), Commit (SetLastSync (snd body))]))"

section \<open>The route guard\<close>

text \<open>
  \<open>AuthType = Object.freeze({ public: 1, public_only: 2, private: 3 })\<close>
\<close>

definition AuthType_public :: nat where "AuthType_public = 1"
definition AuthType_public_only :: nat where "AuthType_public_only = 2"
definition AuthType_private :: nat where "AuthType_private = 3"

text \<open>
  A route location as the guard reads it: \<open>to.path\<close>, \<open>to.name\<close>, \<open>to.query\<close> and
  \<open>to.matched\<close>, and of each matched route record its \<open>meta.Auth_requirements\<close>
  (\<open>None\<close> when the record's meta does not define it). A value of the query is a string,
  \<open>null\<close>, or an array of these.
\<close>

datatype query_value = QString string | QNull | QArray "string option list"

record route_record =
  Auth_requirements :: "nat option"

record route =
  path :: string
  name :: "string option"
  query :: "query_value object"
  matched :: "route_record list"

subsection \<open>\<open>JSON.stringify\<close>\<close>

text \<open>
  The JSON values that the guard serialises, and \<open>JSON.stringify\<close> on them: no white
  space, the properties of an object in enumeration order, and in a string the escapes
  \<open>\"\<close>, \<open>\\\<close>, \<open>\b\<close>, \<open>\t\<close>, \<open>\n\<close>, \<open>\f\<close>, \<open>\r\<close> and \<open>\u00XX\<close> for the other
  characters below \<open>0x20\<close>.
\<close>

datatype json = JNull | JString string | JArray "json list" | JObject "(string \<times> json) list"

definition hex_digit :: "nat \<Rightarrow> char" where
  "hex_digit n = (if n < 10 then char_of (48 + n) else char_of (87 + n))"

definition escape_char :: "char \<Rightarrow> string" where
  "escape_char c =
     (let n = (of_char c :: nat) in
      if n = 0x22 then [CHR 0x5C, CHR 0x22]
      else if n = 0x5C then [CHR 0x5C, CHR 0x5C]
      else if n = 0x08 then [CHR 0x5C, CHR ''b'']
      else if n = 0x09 then [CHR 0x5C, CHR ''t'']
      else if n = 0x0A then [CHR 0x5C, CHR ''n'']
      else if n = 0x0C then [CHR 0x5C, CHR ''f'']
      else if n = 0x0D then [CHR 0x5C, CHR ''r'']
      else if n < 0x20 then [CHR 0x5C, CHR ''u'', CHR ''0'', CHR ''0'',
                             hex_digit (n div 16), hex_digit (n mod 16)]
      else [c])"

definition quote_string :: "string \<Rightarrow> string" where
  "quote_string s = [CHR 0x22] @ concat (map escape_char s) @ [CHR 0x22]"

fun join_comma :: "string list \<Rightarrow> string" where
  "join_comma [] = []"
| "join_comma [x] = x"
| "join_comma (x # y # ys) = x @ '','' @ join_comma (y # ys)"

fun JSON_stringify :: "json \<Rightarrow> string" where
  "JSON_stringify JNull = ''null''"
| "JSON_stringify (JString s) = quote_string s"
| "JSON_stringify (JArray xs) = ''['' @ join_comma (map JSON_stringify xs) @ '']''"
| "JSON_stringify (JObject ps) =
     ''{'' @ join_comma (map (\<lambda>p. quote_string (fst p) @ '':'' @ JSON_stringify (snd p)) ps) @ ''}''"

fun query_value_json :: "query_value \<Rightarrow> json" where
  "query_value_json (QString s) = JString s"
| "query_value_json QNull = JNull"
| "query_value_json (QArray xs) =
     JArray (map (\<lambda>x. case x of None \<Rightarrow> JNull | Some s \<Rightarrow> JString s) xs)"

text \<open>The object \<open>{ path: to.path, query: to.query }\<close> as a JSON value.\<close>

definition redirect_json :: "route \<Rightarrow> json" where
  "redirect_json to =
     JObject [(''path'', JString (path to)),
              (''query'', JObject (map (\<lambda>p. (fst p, query_value_json (snd p)))
                                     (own_entries (query to))))]"

subsection \<open>\<open>requiredAuth\<close> and \<open>AuthChecker\<close>\<close>

record auth_status =
  is_public :: bool
  is_public_only :: bool
  is_private :: bool

datatype js_error = TypeError

text \<open>
  \<open>requiredAuth\<close> reads \<open>route.matched[0].meta\<close>; on a location that matched no route
  record \<open>matched[0]\<close> is \<open>undefined\<close> and the property access throws a TypeError.
\<close>

definition requiredAuth :: "route \<Rightarrow> js_error + auth_status" where
  "requiredAuth r =
     (case matched r of
        [] \<Rightarrow> Inl TypeError
      | m # _ \<Rightarrow>
          Inr \<lparr>is_public = (Auth_requirements m = Some AuthType_public),
               is_public_only = (Auth_requirements m = Some AuthType_public_only),
               is_private = (Auth_requirements m = Some AuthType_private)\<rparr>)"

text \<open>
  What the guard passes to \<open>next\<close>: nothing (the navigation continues) or a location,
  given by the route name and, when assigned, a query object.
\<close>

record location =
  loc_name :: string
  loc_query :: "string object option"

datatype next_call = Continue | Redirect location

text \<open>
  \<open>AuthChecker(to, from, next)\<close>, with what it reads from its surroundings as arguments:
  \<open>auth.currentUser\<close> (\<open>None\<close> for \<open>null\<close>) and \<open>store.state.org\<close>. A string is truthy
  when it is not empty.
\<close>

definition truthy :: "string option \<Rightarrow> bool" where
  "truthy x = (case x of None \<Rightarrow> False | Some v \<Rightarrow> v \<noteq> [])"

definition AuthChecker :: "string option \<Rightarrow> state \<Rightarrow> route \<Rightarrow> js_error + next_call" where
  "AuthChecker currentUser store_state to =
     (case requiredAuth to of
        Inl e \<Rightarrow> Inl e
      | Inr AuthType_required_is \<Rightarrow>
          if is_private AuthType_required_is \<and> currentUser = None then
            Inr (Redirect
              \<lparr>loc_name = ''login'',
               loc_query =
                 (if path to \<noteq> ''/''
                  then Some [(''redirect'', JSON_stringify (redirect_json to))]
                  else None)\<rparr>)
          else if is_public_only AuthType_required_is \<and> currentUser \<noteq> None then
            Inr (Redirect \<lparr>loc_name = ''home'', loc_query = None\<rparr>)
          else if currentUser \<noteq> None \<and> name to = Some ''new-user''
                  \<and> truthy (org store_state) then
            Inr (Redirect \<lparr>loc_name = ''home'', loc_query = None\<rparr>)
          else if currentUser \<noteq> None \<and> name to \<noteq> Some ''new-user''
                  \<and> \<not> truthy (org store_state) then
            Inr (Redirect \<lparr>loc_name = ''new-user'', loc_query = None\<rparr>)
          else Inr Continue)"

section \<open>Concrete inputs\<close>

text \<open>
  The state that \<open>state()\<close> of \<open>store.js\<close> returns: not loading, and the two sample
  notes. Nothing is assigned to \<open>org\<close> and \<open>lastSync\<close> yet.
\<close>

definition cloudflare_note :: Note where
  "cloudflare_note =
     \<lparr>note_id = ''sldgjldskjglsd'', provider = ''cloudflare'', domain = ''covid.gov.sg'',
      record_type = ''CNAME'', subdomain = ''_lnslgknlsfIOH_lsndlgdsl'', record_value = [],
      note_text = ''Domain verification for Emails'', time = 1643184535\<rparr>"

definition route53_note :: Note where
  "route53_note =
     \<lparr>note_id = ''rwihfnldbxf'', provider = ''route53'', domain = ''redeem.gov.sg'',
      record_type = ''CNAME'', subdomain = ''_23ikef_lsndlgdsl'', record_value = [],
      note_text = ''Domain verification for Emails'', time = 1643184537\<rparr>"

definition initial_state :: state where
  "initial_state =
     \<lparr>loading = False,
      state_notes = [(''sldgjldskjglsd'', cloudflare_note), (''rwihfnldbxf'', route53_note)],
      org = None, lastSync = None\<rparr>"

text \<open>A note that only the server holds, and a bootstrap response that carries it.\<close>

definition server_note :: Note where
  "server_note =
     \<lparr>note_id = ''n1'', provider = ''cloudflare'', domain = ''x.gov'',
      record_type = ''A'', subdomain = ''www'', record_value = ''1.2.3.4'',
      note_text = ''Web server'', time = 1000\<rparr>"

text \<open>A note whose id is the string \<open>"__proto__"\<close>.\<close>

definition proto_note :: Note where
  "proto_note =
     \<lparr>note_id = ''__proto__'', provider = ''cloudflare'', domain = ''x.gov'',
      record_type = ''A'', subdomain = ''www'', record_value = ''1.2.3.4'',
      note_text = ''Web server'', time = 1000\<rparr>"

definition server_response :: "(payload \<times> int) response" where
  "server_response = IsOk (NotesObject [(''n1'', server_note)], 1000)"

text \<open>
  A navigation to the private route \<open>/view?id=7\<close>, and one to the private route \<open>/\<close>.
\<close>

definition view_route :: route where
  "view_route =
     \<lparr>path = ''/view'', name = Some ''view'', query = [(''id'', QString ''7'')],
      matched = [\<lparr>Auth_requirements = Some AuthType_private\<rparr>]\<rparr>"

definition home_route :: route where
  "home_route =
     \<lparr>path = ''/'', name = Some ''home'', query = [],
      matched = [\<lparr>Auth_requirements = Some AuthType_private\<rparr>]\<rparr>"

section \<open>Vocabulary of the statements and proofs\<close>

text \<open>
  What an event does to the entry of the collection under one key \<open>k\<close>, given the entry
  before it.
\<close>

fun key_step :: "event \<Rightarrow> string \<Rightarrow> Note option \<Rightarrow> Note option" where
  "key_step (Add n) k x =
     (if note_id n = k then (if k = ''__proto__'' \<and> x = None then None else Some n) else x)"
| "key_step (Delete noteID) k x = (if noteID = k then None else x)"

definition key_run :: "event list \<Rightarrow> string \<Rightarrow> Note option \<Rightarrow> Note option" where
  "key_run es k x = foldl (\<lambda>y e. key_step e k y) x es"

text \<open>
  The effects of a run of \<open>loadDates\<close> up to its last invocation, when every earlier
  invocation failed (with the listed error messages) and the user answered yes each time:
  per failed invocation the request, the prompt and the dispatch.
\<close>

definition retried :: "string option \<Rightarrow> string list \<Rightarrow> effect list" where
  "retried after es =
     concat (map (\<lambda>e. [Request (dates_url after), Confirm (retry_prompt e),
                        Dispatch (ActLoadDates after)]) es)"

section \<open>Objects: assignment, deletion, enumeration\<close>

lemma obj_define_map_of: "map_of (obj_define k v ps) = (map_of ps)(k \<mapsto> v)"
  by (induction ps) auto

lemma obj_define_twice: "obj_define k v (obj_define k v ps) = obj_define k v ps"
  by (induction ps) auto

lemma obj_define_keys: "fst ` set (obj_define k v ps) = insert k (fst ` set ps)"
  by (induction ps) auto

lemma obj_delete_map_of: "map_of (obj_delete k ps) = (map_of ps)(k := None)"
  by (induction ps) (auto simp: obj_delete_def)

lemma obj_delete_absent: "map_of ps k = None \<Longrightarrow> obj_delete k ps = ps"
  by (induction ps) (auto simp: obj_delete_def split: if_splits)

lemma obj_delete_twice: "obj_delete k (obj_delete k ps) = obj_delete k ps"
  by (simp add: obj_delete_def)

lemma own_entries_mset: "mset (own_entries ps) = mset ps"
  by (simp add: own_entries_def)

lemma own_entries_keys: "fst ` set (own_entries ps) = fst ` set ps"
proof -
  have "set (own_entries ps) = set ps"
    using own_entries_mset [of ps] by (rule mset_eq_setD)
  then show ?thesis by simp
qed

lemma copy_properties_keys:
  "fst ` set (copy_properties es target) = fst ` set target \<union> fst ` set es"
  unfolding copy_properties_def
  by (induction es arbitrary: target) (auto simp: obj_define_keys)

text \<open>
  \<open>setNotes\<close> merges: the ids held afterwards are the ids held before together with
  the keys of the payload. No id is dropped.
\<close>

lemma setNotes_keys:
  "dom (collection (setNotes s p)) = dom (collection s) \<union> fst ` set (payload_entries p)"
  by (simp add: collection_def setNotes_def dom_map_of_conv_image_fst
      copy_properties_keys own_entries_keys)

section \<open>Mutations\<close>

lemma obj_assign_map_of:
  "k \<noteq> ''__proto__'' \<or> map_of ps k \<noteq> None
   \<Longrightarrow> map_of (obj_assign k v ps) = (map_of ps)(k \<mapsto> v)"
  by (auto simp: obj_assign_def obj_define_map_of)

lemma obj_assign_twice: "obj_assign k v (obj_assign k v ps) = obj_assign k v ps"
proof (cases "k = ''__proto__'' \<and> map_of ps k = None")
  case True
  then have "k = ''__proto__''" and "map_of ps ''__proto__'' = None"
    by auto
  then have "obj_assign k v ps = ps"
    by (simp add: obj_assign_def)
  then show ?thesis by simp
next
  case False
  then have "obj_assign k v ps = obj_define k v ps"
    by (auto simp: obj_assign_def)
  moreover have "obj_assign k v (obj_define k v ps) = obj_define k v (obj_define k v ps)"
    by (simp add: obj_assign_def obj_define_map_of)
  ultimately show ?thesis by (simp add: obj_define_twice)
qed

text \<open>
  For a note whose id is not \<open>"__proto__"\<close>, and for any note once \<open>state.notes\<close> has an
  own property \<open>"__proto__"\<close>, \<open>addNewNote\<close> updates the collection at the id of the note.
  For every note, committing it twice gives the state that committing it once gives, and
  the other fields of the state are not touched.
\<close>

lemma addNewNote_inserts:
  "note_id n \<noteq> ''__proto__'' \<or> collection s (note_id n) \<noteq> None
   \<Longrightarrow> collection (addNewNote s n) = (collection s)(note_id n \<mapsto> n)"
  by (simp add: collection_def addNewNote_def obj_assign_map_of)

lemma addNewNote_twice: "addNewNote (addNewNote s n) n = addNewNote s n"
  by (simp add: addNewNote_def obj_assign_twice)

lemma addNewNote_frame:
  "loading (addNewNote s n) = loading s \<and> org (addNewNote s n) = org s
   \<and> lastSync (addNewNote s n) = lastSync s"
  by (simp add: addNewNote_def)

text \<open>
  The spread of \<open>setNotes\<close> defines its properties and does create one under the key
  \<open>"__proto__"\<close>; once it is there, \<open>addNewNote\<close> overwrites it.
\<close>

lemma setNotes_defines_proto:
  "collection (setNotes initial_state (NotesObject [(''__proto__'', proto_note)])) ''__proto__''
     = Some proto_note
   \<and> collection (addNewNote
         (setNotes initial_state (NotesObject [(''__proto__'', server_note)])) proto_note)
       ''__proto__''
     = Some proto_note"
proof -
  have "setNotes initial_state (NotesObject [(''__proto__'', proto_note)])
     = initial_state\<lparr>state_notes := state_notes initial_state @ [(''__proto__'', proto_note)]\<rparr>"
    by code_simp
  moreover have "setNotes initial_state (NotesObject [(''__proto__'', server_note)])
     = initial_state\<lparr>state_notes := state_notes initial_state @ [(''__proto__'', server_note)]\<rparr>"
    by code_simp
  ultimately show ?thesis
    by (simp add: collection_def addNewNote_def obj_assign_def initial_state_def
        proto_note_def)
qed

text \<open>
  Claim C3. \<open>addNewNote\<close> does not insert every note under its id. From the initial
  state of the store, committing a note whose id is \<open>"__proto__"\<close> leaves the properties
  of \<open>state.notes\<close> as they were: no note is held under that id afterwards, against the
  claim, which has the collection updated at the id of the note for every note.
\<close>

theorem addNewNote_proto_not_inserted:
  "note_id proto_note = ''__proto__''
   \<and> state_notes (addNewNote initial_state proto_note) = state_notes initial_state
   \<and> collection (addNewNote initial_state proto_note) (note_id proto_note) = None
   \<and> ((collection initial_state)(note_id proto_note \<mapsto> proto_note)) (note_id proto_note)
       = Some proto_note"
  by (simp add: collection_def addNewNote_def obj_assign_def initial_state_def proto_note_def)

text \<open>
  Claim C4. For every state and id \<open>k\<close>, \<open>deleteNote\<close> removes the note held under
  \<open>k\<close> and leaves every other id as it was; when no note is held under \<open>k\<close> the state
  that comes back is the state that went in; deleting twice is deleting once. The
  mutation is a total function of the state: it has no failing case.
\<close>

theorem deleteNote_total_idempotent:
  "collection (deleteNote s k) = (collection s)(k := None)
   \<and> (collection s k = None \<longrightarrow> deleteNote s k = s)
   \<and> deleteNote (deleteNote s k) k = deleteNote s k"
  by (simp add: collection_def deleteNote_def obj_delete_map_of obj_delete_absent
      obj_delete_twice)

theorem deleteNote_total_idempotent_witness:
  "collection initial_state ''n1'' = None \<and> deleteNote initial_state ''n1'' = initial_state"
proof -
  have absent: "collection initial_state ''n1'' = None"
    by (simp add: collection_def initial_state_def)
  with deleteNote_total_idempotent [of initial_state "''n1''"] show ?thesis
    by simp
qed

section \<open>Folding events\<close>

text \<open>
  An event changes each entry of the collection on its own: the entry under \<open>k\<close> after
  the event is a function of the entry under \<open>k\<close> before it.
\<close>

lemma apply_event_key: "collection (apply_event s e) k = key_step e k (collection s k)"
  by (cases e)
     (auto simp: collection_def addNewNote_def deleteNote_def obj_assign_def
        obj_define_map_of obj_delete_map_of)

lemma apply_events_key: "collection (apply_events s es) k = key_run es k (collection s k)"
  unfolding apply_events_def key_run_def
  by (induction es arbitrary: s) (simp_all add: apply_event_key)

text \<open>
  What a list of events does to one entry is the identity, or a constant, or the map
  that keeps an absent entry absent and sends every present one to the same note (the
  events under \<open>"__proto__"\<close> when none of them deletes). Each of the three is idempotent.
\<close>

lemma key_run_shape:
  "(\<forall>x. key_run es k x = x)
   \<or> (\<exists>c. \<forall>x. key_run es k x = c)
   \<or> (\<exists>n. \<forall>x. key_run es k x = (if x = None then None else Some n))"
proof (induction es rule: rev_induct)
  case Nil
  show ?case by (simp add: key_run_def)
next
  case (snoc e es)
  have step: "key_run (es @ [e']) k' x = key_step e' k' (key_run es k' x)" for x e' k'
    by (simp add: key_run_def)
  show ?case
  proof (cases e)
    case (Add n)
    show ?thesis
    proof (cases "note_id n = k")
      case False
      with snoc Add show ?thesis by (simp add: step)
    next
      case True
      show ?thesis
      proof (cases "k = ''__proto__''")
        case False
        with True Add have "\<forall>x. key_run (es @ [e]) k x = Some n" by (simp add: step)
        then show ?thesis by blast
      next
        case proto: True
        from snoc consider
            (ident) "\<forall>x. key_run es k x = x"
          | (const) c where "\<forall>x. key_run es k x = c"
          | (guard) m where "\<forall>x. key_run es k x = (if x = None then None else Some m)"
          by blast
        then show ?thesis
        proof cases
          case ident
          with True proto Add
          have "\<forall>x. key_run (es @ [e]) k x = (if x = None then None else Some n)"
            by (simp add: step)
          then show ?thesis by blast
        next
          case const
          with True proto Add
          have "\<forall>x. key_run (es @ [e]) k x = (if c = None then None else Some n)"
            by (simp add: step)
          then show ?thesis by blast
        next
          case guard
          with True proto Add
          have "\<forall>x. key_run (es @ [e]) k x = (if x = None then None else Some n)"
            by (simp add: step)
          then show ?thesis by blast
        qed
      qed
    qed
  next
    case (Delete d)
    show ?thesis
    proof (cases "d = k")
      case False
      with snoc Delete show ?thesis by (simp add: step)
    next
      case True
      with Delete have "\<forall>x. key_run (es @ [e]) k x = None" by (simp add: step)
      then show ?thesis by blast
    qed
  qed
qed

lemma key_run_idempotent: "key_run es k (key_run es k x) = key_run es k x"
  using key_run_shape [of es k] by (elim disjE exE) simp_all

lemma apply_event_frame:
  "loading (apply_event s e) = loading s \<and> org (apply_event s e) = org s
   \<and> lastSync (apply_event s e) = lastSync s"
  by (cases e) (simp_all add: addNewNote_def deleteNote_def)

lemma apply_events_frame:
  "loading (apply_events s es) = loading s \<and> org (apply_events s es) = org s
   \<and> lastSync (apply_events s es) = lastSync s"
  unfolding apply_events_def
  by (induction es arbitrary: s) (simp_all add: apply_event_frame)

text \<open>
  Claim C5. For every state and every ordered list of \<open>Add\<close> and \<open>Delete\<close> events,
  applying the list to the result of applying it gives the same collection (the same
  mapping from id to note) as applying it once, and the same other fields.
\<close>

theorem apply_events_idempotent:
  "collection (apply_events (apply_events s es) es) = collection (apply_events s es)
   \<and> loading (apply_events (apply_events s es) es) = loading (apply_events s es)
   \<and> org (apply_events (apply_events s es) es) = org (apply_events s es)
   \<and> lastSync (apply_events (apply_events s es) es) = lastSync (apply_events s es)"
proof -
  have "collection (apply_events (apply_events s es) es) k = collection (apply_events s es) k"
    for k
    by (simp add: apply_events_key key_run_idempotent)
  then have "collection (apply_events (apply_events s es) es) = collection (apply_events s es)"
    by (rule ext)
  then show ?thesis by (simp add: apply_events_frame)
qed

theorem apply_events_idempotent_witness:
  "collection (apply_events (apply_events initial_state
       [Delete ''sldgjldskjglsd'', Add cloudflare_note, Add server_note])
       [Delete ''sldgjldskjglsd'', Add cloudflare_note, Add server_note])
   = collection (apply_events initial_state
       [Delete ''sldgjldskjglsd'', Add cloudflare_note, Add server_note])"
  using apply_events_idempotent
    [of initial_state "[Delete ''sldgjldskjglsd'', Add cloudflare_note, Add server_note]"]
  by (rule conjunct1)

text \<open>
  The collection is the same, the order of the properties of \<open>state.notes\<close> need not be:
  on the second pass a note that is deleted and added again moves behind a note that the
  first pass created after it.
\<close>

lemma apply_events_property_order:
  "map fst (state_notes (apply_events initial_state
       [Delete ''sldgjldskjglsd'', Add cloudflare_note, Add server_note]))
     = [''rwihfnldbxf'', ''sldgjldskjglsd'', ''n1'']
   \<and> map fst (state_notes (apply_events (apply_events initial_state
       [Delete ''sldgjldskjglsd'', Add cloudflare_note, Add server_note])
       [Delete ''sldgjldskjglsd'', Add cloudflare_note, Add server_note]))
     = [''rwihfnldbxf'', ''n1'', ''sldgjldskjglsd'']"
  by (simp add: apply_events_def initial_state_def addNewNote_def deleteNote_def
      obj_assign_def obj_delete_def cloudflare_note_def server_note_def)

section \<open>The sorted view\<close>

lemma sort_insert_mset: "mset (sort_insert c x ys) = add_mset x (mset ys)"
  by (induction ys) auto

lemma sort_insert_set: "set (sort_insert c x ys) = insert x (set ys)"
  by (induction ys) auto

lemma Array_sort_mset: "mset (Array_sort c xs) = mset xs"
  by (induction xs) (auto simp: Array_sort_def sort_insert_mset)

lemma sort_insert_newest_first:
  "sorted_wrt (\<lambda>a b. time b \<le> time a) ys
   \<Longrightarrow> sorted_wrt (\<lambda>a b. time b \<le> time a) (sort_insert (\<lambda>a b. time b - time a) x ys)"
  by (induction ys) (auto simp: sort_insert_set)

lemma Array_sort_newest_first:
  "sorted_wrt (\<lambda>a b. time b \<le> time a) (Array_sort (\<lambda>a b. time b - time a) xs)"
  by (induction xs) (simp_all add: Array_sort_def sort_insert_newest_first)

text \<open>
  Claim C8. In every state the \<open>notes\<close> getter is a list of exactly the notes that
  \<open>state.notes\<close> holds (each as often as it is held), and in that list no note comes
  before a note with a larger \<open>time\<close>: newest first.
\<close>

theorem notes_getter_newest_first:
  "sorted_wrt (\<lambda>a b. time b \<le> time a) (notes_getter s)
   \<and> mset (notes_getter s) = mset (map snd (state_notes s))"
  by (simp add: notes_getter_def Array_sort_newest_first Array_sort_mset Object_values_def
      own_entries_mset)

theorem notes_getter_newest_first_witness:
  "sorted_wrt (\<lambda>a b. time b \<le> time a) (notes_getter initial_state)
   \<and> mset (notes_getter initial_state) = mset (map snd (state_notes initial_state))
   \<and> notes_getter initial_state = [route53_note, cloudflare_note]"
proof -
  have "notes_getter initial_state = [route53_note, cloudflare_note]"
    by code_simp
  with notes_getter_newest_first [of initial_state] show ?thesis
    by simp
qed

section \<open>Bootstrap\<close>

text \<open>
  Claim C1. In every run of \<open>loadAllNotes\<close>, whatever the server answers: if the run
  commits \<open>setLastSync\<close> at some point of its effects, then the effects before that
  point are the request and the commit of \<open>setNotes\<close> with the notes of the same
  response, the state reached just before the checkpoint commit already holds those
  notes and still has the old \<open>lastSync\<close>, and nothing follows the checkpoint commit.
  A run whose request fails commits nothing.
\<close>

theorem loadAllNotes_commit_order:
  assumes "loadAllNotes res s = (r, s', fx)"
    and "fx = pre @ Commit (SetLastSync t) # post"
  shows "\<exists>p. res = IsOk (p, t)
          \<and> pre = [Request (notes_url s), Commit (SetNotes p)] \<and> post = []
          \<and> replay s pre = setNotes s p
          \<and> lastSync (replay s pre) = lastSync s
          \<and> s' = setLastSync (setNotes s p) t"
  using assms
  by (cases res)
     (auto simp: loadAllNotes_def append_eq_Cons_conv Cons_eq_append_conv setNotes_def)

theorem loadAllNotes_commit_order_witness:
  "loadAllNotes server_response initial_state
     = (Inr JSUndefined,
        setLastSync (setNotes initial_state (NotesObject [(''n1'', server_note)])) 1000,
        [Request ''/note/all/undefined'', Commit (SetNotes (NotesObject [(''n1'', server_note)]))]
          @ Commit (SetLastSync 1000) # [])
   \<and> replay initial_state
         [Request ''/note/all/undefined'', Commit (SetNotes (NotesObject [(''n1'', server_note)]))]
       = setNotes initial_state (NotesObject [(''n1'', server_note)])
   \<and> lastSync (setNotes initial_state (NotesObject [(''n1'', server_note)])) = None"
proof -
  have url: "notes_url initial_state = ''/note/all/undefined''"
    by (simp add: notes_url_def initial_state_def)
  have run: "loadAllNotes server_response initial_state
     = (Inr JSUndefined,
        setLastSync (setNotes initial_state (NotesObject [(''n1'', server_note)])) 1000,
        [Request ''/note/all/undefined'', Commit (SetNotes (NotesObject [(''n1'', server_note)]))]
          @ Commit (SetLastSync 1000) # [])"
    by (simp add: loadAllNotes_def server_response_def url)
  have old: "lastSync initial_state = None"
    by (simp add: initial_state_def)
  from loadAllNotes_commit_order [OF run refl] run old show ?thesis
    by (auto simp: server_response_def)
qed

text \<open>
  Claim C2. After a successful \<open>loadAllNotes\<close> the local collection is not what the
  server returned: \<open>setNotes\<close> spreads the response over the notes already held, so a
  note that the response does not contain stays. From the initial state of the store and
  a response with the single note \<open>n1\<close>, the run ends with the two sample notes and
  \<open>n1\<close>.
\<close>

theorem loadAllNotes_keeps_local_notes:
  "loadAllNotes server_response initial_state
     = (Inr JSUndefined,
        \<lparr>loading = False,
         state_notes = [(''sldgjldskjglsd'', cloudflare_note), (''rwihfnldbxf'', route53_note),
                        (''n1'', server_note)],
         org = None, lastSync = Some 1000\<rparr>,
        [Request ''/note/all/undefined'', Commit (SetNotes (NotesObject [(''n1'', server_note)])),
         Commit (SetLastSync 1000)])
   \<and> collection (fst (snd (loadAllNotes server_response initial_state))) ''sldgjldskjglsd''
       = Some cloudflare_note
   \<and> map_of [(''n1'', server_note)] ''sldgjldskjglsd'' = None"
proof -
  have "loadAllNotes server_response initial_state
     = (Inr JSUndefined,
        \<lparr>loading = False,
         state_notes = [(''sldgjldskjglsd'', cloudflare_note), (''rwihfnldbxf'', route53_note),
                        (''n1'', server_note)],
         org = None, lastSync = Some 1000\<rparr>,
        [Request ''/note/all/undefined'', Commit (SetNotes (NotesObject [(''n1'', server_note)])),
         Commit (SetLastSync 1000)])"
    by code_simp
  then show ?thesis by (simp add: collection_def)
qed

text \<open>
  When the response carries its notes as an array, the spread stores them under their
  array indices, not under their ids.
\<close>

lemma loadAllNotes_array_payload:
  "map fst (state_notes (fst (snd
      (loadAllNotes (IsOk (NotesArray [server_note], 1000)) initial_state))))
   = [''sldgjldskjglsd'', ''rwihfnldbxf'', ''0'']"
  by code_simp

section \<open>Retry and abandonment\<close>

lemma loadDates_retries:
  "loadDates (map (\<lambda>e. (NotOk e, True)) es @ script) s after
   = map_option (\<lambda>(r, s', fx). (r, s', retried after es @ fx)) (loadDates script s after)"
proof (induction es)
  case Nil
  show ?case by (simp add: retried_def option.map_ident split_def)
next
  case (Cons e es)
  show ?case
    by (cases "loadDates script s after") (auto simp: Cons.IH retried_def)
qed

lemma replay_retried: "replay s (retried after es @ fx) = replay s fx"
  by (induction es) (simp_all add: retried_def)

text \<open>
  A run of \<open>loadDates\<close> that resolves to \<open>false\<close> has committed nothing.
\<close>

lemma loadDates_abandoned:
  "loadDates script s after = Some (Inr JSFalse, s', fx)
   \<Longrightarrow> s' = s \<and> filter is_Commit fx = []"
proof (induction script arbitrary: fx)
  case Nil
  then show ?case by simp
next
  case (Cons x script)
  obtain res answer where x: "x = (res, answer)" by (cases x)
  show ?case
  proof (cases res)
    case (NoHeader e)
    with Cons.prems x show ?thesis by simp
  next
    case (Rejected e)
    with Cons.prems x show ?thesis by simp
  next
    case (NotOk e)
    with Cons x show ?thesis
      by (auto split: if_splits option.splits)
  next
    case (IsOk p)
    with Cons.prems x show ?thesis by (simp split: if_splits)
  qed
qed

text \<open>
  In a settled run of any action, every dispatch that the run performs is a dispatch of
  that action with its argument.
\<close>

lemma loadDates_dispatches:
  "loadDates script s after = Some (r, s', fx) \<Longrightarrow> Dispatch b \<in> set fx
   \<Longrightarrow> b = ActLoadDates after"
proof (induction script arbitrary: fx)
  case Nil
  then show ?case by simp
next
  case (Cons x script)
  obtain res answer where x: "x = (res, answer)" by (cases x)
  show ?case
  proof (cases res)
    case (NoHeader e)
    with Cons.prems x show ?thesis by auto
  next
    case (Rejected e)
    with Cons.prems x show ?thesis by auto
  next
    case (NotOk e)
    with Cons x show ?thesis
      by (auto split: if_splits option.splits)
  next
    case (IsOk p)
    with Cons.prems x show ?thesis by (auto split: if_splits)
  qed
qed

lemma dispatch_dispatches:
  "dispatch script s a = Some (r, s', fx) \<Longrightarrow> Dispatch b \<in> set fx \<Longrightarrow> b = a"
  by (cases a) (auto simp: newNote_def deleteNote_action_def dest: loadDates_dispatches)

text \<open>
  Claim C6. The remote operation that runs under the retry protocol is the fetch of
  \<open>loadDates\<close> (\<open>newNote\<close> and \<open>deleteNote\<close> return before their fetch). In a settled
  run of any action, every dispatch is a dispatch of the same action with the same
  argument. When invocations of \<open>loadDates\<close> fail and the user answers yes each time,
  every one of them is followed by a dispatch of \<open>loadDates\<close> with the argument
  \<open>after\<close> of the failed invocation, each invocation requests the same URL, and the run
  goes on as a run of the same action with the same argument on the same state. When an
  invocation fails and the user answers no, the action resolves to \<open>false\<close>: a value,
  not a rejection.
\<close>

theorem retry_same_arguments:
  "(dispatch script0 s0 a = Some (r, s', fx) \<and> Dispatch b \<in> set fx \<longrightarrow> b = a)
   \<and> dispatch (map (\<lambda>e. (NotOk e, True)) es @ script) s (ActLoadDates after)
     = map_option (\<lambda>(r, s', fx). (r, s', retried after es @ fx))
         (dispatch script s (ActLoadDates after))
   \<and> dispatch ((NotOk e, False) # script') s (ActLoadDates after)
     = Some (Inr JSFalse, s, [Request (dates_url after), Confirm (retry_prompt e)])"
  using dispatch_dispatches [of script0 s0 a r s' fx b]
  by (simp add: loadDates_retries)

theorem retry_same_arguments_witness:
  "dispatch [(NotOk ''offline'', True), (IsOk (NotesArray []), False)] initial_state
       (ActLoadDates (Some ''5''))
     = Some (Inr JSUndefined, initial_state,
         [Request ''/appointment/available/date?after=5'',
          Confirm (retry_prompt ''offline''),
          Dispatch (ActLoadDates (Some ''5'')),
          Request ''/appointment/available/date?after=5'',
          Alert ''All notes loaded!''])
   \<and> Dispatch (ActLoadDates (Some ''5''))
       \<in> set [Request ''/appointment/available/date?after=5'',
          Confirm (retry_prompt ''offline''),
          Dispatch (ActLoadDates (Some ''5'')),
          Request ''/appointment/available/date?after=5'',
          Alert ''All notes loaded!'']
   \<and> dispatch [(NotOk ''offline'', False)] initial_state (ActLoadDates (Some ''5''))
     = Some (Inr JSFalse, initial_state,
         [Request ''/appointment/available/date?after=5'',
          Confirm (retry_prompt ''offline'')])"
  using retry_same_arguments
    [where es = "[''offline'']" and script = "[(IsOk (NotesArray []), False)]"
       and s = initial_state and after = "Some ''5''" and e = "''offline''"
       and script' = "[]"
       and script0 = "[(NotOk ''offline'', True), (IsOk (NotesArray []), False)]"
       and s0 = initial_state and a = "ActLoadDates (Some ''5'')"
       and r = "Inr JSUndefined" and s' = initial_state
       and fx = "[Request ''/appointment/available/date?after=5'',
          Confirm (retry_prompt ''offline''),
          Dispatch (ActLoadDates (Some ''5'')),
          Request ''/appointment/available/date?after=5'',
          Alert ''All notes loaded!'']"
       and b = "ActLoadDates (Some ''5'')"]
  by (simp add: retried_def dates_url_def)

text \<open>
  Claim C7. When every fetch of a run of \<open>loadDates\<close> fails and the user, after any
  number of retries, answers no, the run ends: the action resolves to the falsy value
  \<open>false\<close> (it does not reject), the state it leaves is the state it started from, and
  replaying its effects commits nothing.
\<close>

theorem abandon_leaves_state:
  "loadDates (map (\<lambda>e. (NotOk e, True)) es @ (NotOk e, False) # script) s after
     = Some (Inr JSFalse, s,
         retried after es @ [Request (dates_url after), Confirm (retry_prompt e)])
   \<and> replay s (retried after es @ [Request (dates_url after), Confirm (retry_prompt e)]) = s"
  by (simp add: loadDates_retries replay_retried)

theorem abandon_leaves_state_witness:
  "loadDates [(NotOk ''offline'', True), (NotOk ''busy'', False)] initial_state None
     = Some (Inr JSFalse, initial_state,
         [Request ''/appointment/available/date'', Confirm (retry_prompt ''offline''),
          Dispatch (ActLoadDates None),
          Request ''/appointment/available/date'', Confirm (retry_prompt ''busy'')])"
  using abandon_leaves_state [of "[''offline'']" "''busy''" "[]" initial_state None]
  by (simp add: retried_def dates_url_def)

section \<open>Local writes\<close>

text \<open>
  Claim C9. For every note and every id, whatever the environment would answer:
  \<open>newNote\<close> settles after the single commit of \<open>addNewNote\<close> and \<open>deleteNote\<close> after
  the single commit of \<open>deleteNote\<close>; neither issues a request, a prompt or a dispatch,
  and the fields \<open>loading\<close>, \<open>org\<close> and \<open>lastSync\<close> of the state are as before.
\<close>

theorem local_actions_commit_only:
  "dispatch script s (ActNewNote n)
     = Some (Inr JSUndefined, addNewNote s n, [Commit (AddNewNote n)])
   \<and> dispatch script s (ActDeleteNote k)
     = Some (Inr JSUndefined, deleteNote s k, [Commit (DeleteNote k)])
   \<and> loading (addNewNote s n) = loading s \<and> org (addNewNote s n) = org s
   \<and> lastSync (addNewNote s n) = lastSync s
   \<and> loading (deleteNote s k) = loading s \<and> org (deleteNote s k) = org s
   \<and> lastSync (deleteNote s k) = lastSync s"
  by (simp add: newNote_def deleteNote_action_def addNewNote_def deleteNote_def)

theorem local_actions_commit_only_witness:
  "dispatch [] initial_state (ActNewNote server_note)
     = Some (Inr JSUndefined, addNewNote initial_state server_note,
         [Commit (AddNewNote server_note)])
   \<and> dispatch [] initial_state (ActDeleteNote ''rwihfnldbxf'')
     = Some (Inr JSUndefined, deleteNote initial_state ''rwihfnldbxf'',
         [Commit (DeleteNote ''rwihfnldbxf'')])"
  using local_actions_commit_only [of "[]" initial_state server_note "''rwihfnldbxf''"]
  by simp

section \<open>Route guard\<close>

text \<open>
  Claim C10. For every navigation, every user and every state of the store, the guard
  calls \<open>next\<close> with the login route exactly when the first matched route record
  requires private auth and no user is logged in; the location it passes then has the
  query \<open>{ redirect: JSON.stringify({ path, query }) }\<close> of the target when the target's
  path is not \<open>/\<close>, and no query when it is.
\<close>

theorem AuthChecker_login_redirect:
  "(AuthChecker currentUser st to = Inr (Redirect \<lparr>loc_name = ''login'', loc_query = q\<rparr>))
   = (\<exists>m ms. matched to = m # ms
        \<and> Auth_requirements m = Some AuthType_private \<and> currentUser = None
        \<and> q = (if path to \<noteq> ''/''
               then Some [(''redirect'', JSON_stringify (redirect_json to))] else None))"
  by (cases "matched to") (auto simp: AuthChecker_def requiredAuth_def)

theorem AuthChecker_login_redirect_witness:
  \<open>AuthChecker None initial_state view_route
     = Inr (Redirect \<lparr>loc_name = ''login'',
              loc_query = Some [(''redirect'', ''{"path":"/view","query":{"id":"7"}}'')]\<rparr>)
   \<and> AuthChecker None initial_state home_route
     = Inr (Redirect \<lparr>loc_name = ''login'', loc_query = None\<rparr>)\<close>
proof -
  have enc: \<open>JSON_stringify (redirect_json view_route) = ''{"path":"/view","query":{"id":"7"}}''\<close>
    by code_simp
  have "matched view_route = \<lparr>Auth_requirements = Some AuthType_private\<rparr> # []"
    and "path view_route \<noteq> ''/''"
    by (simp_all add: view_route_def)
  with enc have view: \<open>AuthChecker None initial_state view_route
     = Inr (Redirect \<lparr>loc_name = ''login'',
              loc_query = Some [(''redirect'', ''{"path":"/view","query":{"id":"7"}}'')]\<rparr>)\<close>
    unfolding AuthChecker_login_redirect by auto
  have "matched home_route = \<lparr>Auth_requirements = Some AuthType_private\<rparr> # []"
    and "path home_route = ''/''"
    by (simp_all add: home_route_def)
  then have "AuthChecker None initial_state home_route
     = Inr (Redirect \<lparr>loc_name = ''login'', loc_query = None\<rparr>)"
    unfolding AuthChecker_login_redirect by auto
  with view show ?thesis by simp
qed

end
